theory Spec2Isabelle
  imports Complex_Main "HOL-Library.Log_Nat"
begin

section \<open>JavaScript numbers\<close>

text \<open>
  Every number of \<^verbatim>\<open>InfiniteSlider.tsx\<close> is an IEEE 754 binary64 value. A finite
  double is kept as the rational it denotes; the two zeros are identified (in this
  program the sign of a zero can show only in the sign of an infinite quotient). Each
  arithmetic operation computes the exact rational result and rounds it to the nearest
  double, ties to even, as the language prescribes.
\<close>

datatype jsnum = NaN | PInf | NInf | Fin rat

definition expo :: "rat \<Rightarrow> int" where
  \<comment> \<open>the binary exponent of a non-zero rational: the \<open>e\<close> with \<open>2^e \<le> |r| < 2^(e+1)\<close>\<close>
  "expo r = (let (a, b) = quotient_of \<bar>r\<bar>; k = bitlen a - bitlen b
             in if 2 powi k \<le> \<bar>r\<bar> then k else k - 1)"

definition round_half_even :: "rat \<Rightarrow> int" where
  "round_half_even x =
     (let n = \<lfloor>x + 1 / 2\<rfloor> in if of_int n = x + 1 / 2 \<and> odd n then n - 1 else n)"

definition round_to_double :: "rat \<Rightarrow> jsnum" where
  \<comment> \<open>53 significant bits, exponents from -1022 (below: subnormal spacing) to 1023\<close>
  "round_to_double r =
     (if r = 0 then Fin 0
      else let q = 2 powi (max (expo r) (- 1022) - 52);
               v = of_int (round_half_even (r / q)) * q
           in if 2 powi 1024 \<le> \<bar>v\<bar> then (if 0 < r then PInf else NInf) else Fin v)"

definition normal_or_zero :: "rat \<Rightarrow> bool" where
  \<comment> \<open>an exact result that is rounded with the full 53 bits: zero, or at least \<open>2^-1022\<close>
      in magnitude\<close>
  "normal_or_zero x = (x = 0 \<or> 2 powi (- 1022) \<le> \<bar>x\<bar>)"

definition is_finite :: "jsnum \<Rightarrow> bool" where
  "is_finite x = (case x of Fin _ \<Rightarrow> True | _ \<Rightarrow> False)"

definition is_neg :: "jsnum \<Rightarrow> bool" where
  "is_neg x = (case x of Fin a \<Rightarrow> a < 0 | NInf \<Rightarrow> True | _ \<Rightarrow> False)"

fun js_neg :: "jsnum \<Rightarrow> jsnum" where
  "js_neg NaN = NaN"
| "js_neg PInf = NInf"
| "js_neg NInf = PInf"
| "js_neg (Fin a) = Fin (- a)"

fun js_add :: "jsnum \<Rightarrow> jsnum \<Rightarrow> jsnum" where
  "js_add NaN _ = NaN"
| "js_add _ NaN = NaN"
| "js_add (Fin a) (Fin b) = round_to_double (a + b)"
| "js_add PInf NInf = NaN"
| "js_add NInf PInf = NaN"
| "js_add PInf _ = PInf"
| "js_add NInf _ = NInf"
| "js_add (Fin a) y = y"

definition js_sub :: "jsnum \<Rightarrow> jsnum \<Rightarrow> jsnum" where
  "js_sub x y = js_add x (js_neg y)"

fun js_mul :: "jsnum \<Rightarrow> jsnum \<Rightarrow> jsnum" where
  "js_mul NaN _ = NaN"
| "js_mul _ NaN = NaN"
| "js_mul (Fin a) (Fin b) = round_to_double (a * b)"
| "js_mul x y =
     (if x = Fin 0 \<or> y = Fin 0 then NaN else if is_neg x = is_neg y then PInf else NInf)"

fun js_div :: "jsnum \<Rightarrow> jsnum \<Rightarrow> jsnum" where
  "js_div NaN _ = NaN"
| "js_div _ NaN = NaN"
| "js_div (Fin a) (Fin b) =
     (if b = 0 then (if a = 0 then NaN else if 0 < a then PInf else NInf)
      else round_to_double (a / b))"
| "js_div (Fin a) _ = Fin 0"
| "js_div x (Fin b) = (if is_neg x = (b < 0) then PInf else NInf)"
| "js_div _ _ = NaN"

fun js_lt :: "jsnum \<Rightarrow> jsnum \<Rightarrow> bool" where
  "js_lt NaN _ = False"
| "js_lt _ NaN = False"
| "js_lt (Fin a) (Fin b) = (a < b)"
| "js_lt PInf _ = False"
| "js_lt _ NInf = False"
| "js_lt _ _ = True"

definition js_gt :: "jsnum \<Rightarrow> jsnum \<Rightarrow> bool" where
  "js_gt x y = js_lt y x"

definition js_strict_eq :: "jsnum \<Rightarrow> jsnum \<Rightarrow> bool" where
  \<comment> \<open>\<^verbatim>\<open>===\<close> on numbers: NaN is equal to nothing\<close>
  "js_strict_eq x y = (x \<noteq> NaN \<and> x = y)"

definition js_truthy :: "jsnum \<Rightarrow> bool" where
  \<comment> \<open>ToBoolean on a number: false for 0 and NaN\<close>
  "js_truthy x = (x \<noteq> NaN \<and> x \<noteq> Fin 0)"

fun Math_round :: "jsnum \<Rightarrow> jsnum" where
  \<comment> \<open>the nearest integer, ties towards \<open>+\<infinity>\<close>\<close>
  "Math_round (Fin a) = Fin (of_int \<lfloor>a + 1 / 2\<rfloor>)"
| "Math_round x = x"

definition num_of_int :: "int \<Rightarrow> jsnum" where
  \<comment> \<open>an integer as a number: array lengths and the DOM's \<^verbatim>\<open>long\<close> attributes have at
      most 32 bits and are exact\<close>
  "num_of_int i = round_to_double (of_int i)"

section \<open>Items and configuration\<close>

text \<open>
  \<^verbatim>\<open>SliderItem\<close> and \<^verbatim>\<open>InfiniteSliderProps\<close>. An optional property is an option value;
  the defaults of the destructuring in the function header are \<open>default_props\<close>. Of the
  callback \<open>onItemClick\<close> the record keeps whether one is given; the arguments it would
  get are part of what is rendered.
\<close>

record SliderItem =
  item_id :: "string option"
  logo :: "string option"
  item_text :: "string option"
  alt :: "string option"
  invertDark :: "bool option"
  item_className :: "string option"

datatype gap_prop = GapNumber jsnum | GapString string

datatype direction_prop = Ltr | Rtl

record InfiniteSliderProps =
  items :: "SliderItem list"
  duration :: jsnum
  gap :: gap_prop
  pauseOnHover :: bool
  direction :: direction_prop
  className :: string
  itemClassName :: string
  showGradients :: bool
  speed :: jsnum
  onItemClick :: bool
  baseWidth :: jsnum
  lazyLoad :: bool
  rootMargin :: string

definition default_props :: "SliderItem list \<Rightarrow> InfiniteSliderProps" where
  "default_props its =
     \<lparr>items = its, duration = Fin 30, gap = GapString ''3rem'', pauseOnHover = True,
      direction = Ltr, className = [], itemClassName = [], showGradients = True,
      speed = Fin 1, onItemClick = False, baseWidth = Fin 5000, lazyLoad = True,
      rootMargin = ''50px''\<rparr>"

definition str_truthy :: "string option \<Rightarrow> bool" where
  \<comment> \<open>ToBoolean on \<^verbatim>\<open>string | undefined\<close>: false for undefined and for the empty string\<close>
  "str_truthy s = (case s of None \<Rightarrow> False | Some t \<Rightarrow> t \<noteq> [])"

section \<open>Loop geometry: \<^verbatim>\<open>calculateAndSetWidth\<close>\<close>

text \<open>
  What the procedure reads from the live document: the track's children with their
  \<^verbatim>\<open>offsetLeft\<close> and \<^verbatim>\<open>offsetWidth\<close>, and the \<^verbatim>\<open>gap\<close> of the track's computed style.
  \<^verbatim>\<open>parseFloat\<close> is the host's function and is a parameter.
\<close>

record element =
  offsetLeft :: int
  offsetWidth :: int

record layout =
  children :: "element list"
  computed_gap :: string

datatype js_error = TypeError | Error string

datatype css_value = Px jsnum | Seconds jsnum

datatype dom_op =
    SetProperty string css_value
  | RequestAnimationFrame_classList_add string

definition element_at :: "element list \<Rightarrow> int \<Rightarrow> js_error + element" where
  \<comment> \<open>\<^verbatim>\<open>itemsElements[k]\<close> followed by a property read: out of range the array gives
      \<^verbatim>\<open>undefined\<close> and the read throws\<close>
  "element_at els k =
     (if 0 \<le> k \<and> k < int (length els) then Inr (els ! nat k) else Inl TypeError)"

definition gapPx :: "(string \<Rightarrow> jsnum) \<Rightarrow> string \<Rightarrow> gap_prop \<Rightarrow> jsnum" where
  "gapPx parseFloat gapValue g =
     (if gapValue \<noteq> [] then parseFloat gapValue
      else case g of GapNumber n \<Rightarrow> n | GapString _ \<Rightarrow> Fin 48)"

definition and_then :: "js_error + 'a \<Rightarrow> ('a \<Rightarrow> js_error + 'b) \<Rightarrow> js_error + 'b" where
  \<comment> \<open>sequencing: a throw ends the function\<close>
  "and_then r f = (case r of Inl e \<Rightarrow> Inl e | Inr x \<Rightarrow> f x)"

definition measured_width ::
  "(string \<Rightarrow> jsnum) \<Rightarrow> InfiniteSliderProps \<Rightarrow> layout \<Rightarrow> js_error + jsnum" where
  \<comment> \<open>lines 203 to 233: the measurement from the first item to the second set, or from
      the first to the last item of the first set plus the gap, or 0\<close>
  "measured_width parseFloat p lay =
     (let itemsElements = children lay; itemsPerSet = length (items p)
      in if itemsPerSet * 2 \<le> length itemsElements then
           and_then (element_at itemsElements 0) (\<lambda>firstItem.
           and_then (element_at itemsElements (int itemsPerSet)) (\<lambda>firstItemOfSecondSet.
             Inr (js_sub (num_of_int (offsetLeft firstItemOfSecondSet))
                         (num_of_int (offsetLeft firstItem)))))
         else if itemsPerSet \<le> length itemsElements then
           and_then (element_at itemsElements 0) (\<lambda>firstItem.
           and_then (element_at itemsElements (int itemsPerSet - 1)) (\<lambda>lastItemOfFirstSet.
             (let firstItemLeft = num_of_int (offsetLeft firstItem);
                  lastItemRight = js_add (num_of_int (offsetLeft lastItemOfFirstSet))
                                         (num_of_int (offsetWidth lastItemOfFirstSet))
              in Inr (js_add (js_sub lastItemRight firstItemLeft)
                             (gapPx parseFloat (computed_gap lay) (gap p))))))
         else Inr (Fin 0))"

definition needs_manual_calculation :: "jsnum \<Rightarrow> bool" where
  \<comment> \<open>line 236\<close>
  "needs_manual_calculation halfTotalWidth =
     (js_strict_eq halfTotalWidth (Fin 0) \<or> \<not> js_truthy halfTotalWidth
      \<or> js_lt halfTotalWidth (Fin 100))"

definition manual_calculation ::
  "(string \<Rightarrow> jsnum) \<Rightarrow> InfiniteSliderProps \<Rightarrow> layout \<Rightarrow> jsnum" where
  \<comment> \<open>lines 237 to 249: the widths of the first set, one by one, plus the gaps\<close>
  "manual_calculation parseFloat p lay =
     (let itemsElements = children lay; itemsPerSet = length (items p)
      in js_add
           (foldl (\<lambda>w el. js_add w (num_of_int (offsetWidth el))) (Fin 0)
              (take itemsPerSet itemsElements))
           (js_mul (gapPx parseFloat (computed_gap lay) (gap p))
              (num_of_int (int itemsPerSet - 1))))"

definition halfTotalWidth ::
  "(string \<Rightarrow> jsnum) \<Rightarrow> InfiniteSliderProps \<Rightarrow> layout \<Rightarrow> js_error + jsnum" where
  \<comment> \<open>the distance after every fallback, before the test of line 253\<close>
  "halfTotalWidth parseFloat p lay =
     and_then (measured_width parseFloat p lay) (\<lambda>w.
       Inr (if needs_manual_calculation w then manual_calculation parseFloat p lay else w))"

definition scrollDuration :: "jsnum \<Rightarrow> jsnum \<Rightarrow> jsnum \<Rightarrow> jsnum \<Rightarrow> jsnum" where
  \<comment> \<open>line 261, evaluated from left to right\<close>
  "scrollDuration w bw d s = js_mul (js_mul (js_div w bw) d) s"

definition publish :: "InfiniteSliderProps \<Rightarrow> jsnum \<Rightarrow> dom_op list" where
  \<comment> \<open>lines 253 to 268\<close>
  "publish p w =
     (if js_gt w (Fin 0) then
        (let r = Math_round w
         in [SetProperty ''--total-width'' (Px r),
             SetProperty ''--scroll-duration''
               (Seconds (scrollDuration r (baseWidth p) (duration p) (speed p))),
             RequestAnimationFrame_classList_add ''infinite-slider-ready''])
      else [])"

definition calculateAndSetWidth ::
  "(string \<Rightarrow> jsnum) \<Rightarrow> InfiniteSliderProps \<Rightarrow> layout \<Rightarrow> js_error + dom_op list" where
  "calculateAndSetWidth parseFloat p lay =
     (if children lay = [] then Inr []
      else and_then (halfTotalWidth parseFloat p lay) (\<lambda>w. Inr (publish p w)))"

definition is_space :: "char \<Rightarrow> bool" where
  "is_space c = (c \<in> set [CHR 0x20, CHR 0x09, CHR 0x0A, CHR 0x0B, CHR 0x0C, CHR 0x0D])"

definition is_digit :: "char \<Rightarrow> bool" where
  "is_digit c = (c \<in> set ''0123456789'')"

definition digits_value :: "string \<Rightarrow> nat" where
  "digits_value ds = foldl (\<lambda>v c. 10 * v + (of_char c - 48)) 0 ds"

definition unsigned :: "string \<Rightarrow> string" where
  \<comment> \<open>the string after an optional sign\<close>
  "unsigned t = (case t of c # r \<Rightarrow> if c = CHR ''-'' \<or> c = CHR ''+'' then r else t | [] \<Rightarrow> t)"

definition minus_sign :: "string \<Rightarrow> bool" where
  "minus_sign t = (case t of c # _ \<Rightarrow> c = CHR ''-'' | [] \<Rightarrow> False)"

definition exponent_part :: "string \<Rightarrow> int" where
  \<comment> \<open>\<^verbatim>\<open>e\<close> or \<^verbatim>\<open>E\<close>, an optional sign and digits; 0 when the string does not start so\<close>
  "exponent_part t =
     (case t of [] \<Rightarrow> 0
      | c # r \<Rightarrow>
          if (c = CHR ''e'' \<or> c = CHR ''E'') \<and> takeWhile is_digit (unsigned r) \<noteq> []
          then (if minus_sign r then - int (digits_value (takeWhile is_digit (unsigned r)))
                else int (digits_value (takeWhile is_digit (unsigned r))))
          else 0)"

definition parseFloat_decimal :: "string \<Rightarrow> jsnum" where
  \<comment> \<open>\<^verbatim>\<open>parseFloat\<close> on a string of ASCII characters: leading white space, an optional
      sign, then \<^verbatim>\<open>Infinity\<close> or the longest decimal literal (digits, a fraction, an
      exponent); what follows is ignored, and without a digit the result is NaN.
      The theorems below hold for every \<open>parseFloat\<close>; this one serves the examples.\<close>
  "parseFloat_decimal s =
     (let t = dropWhile is_space s; u = unsigned t
      in if take 8 u = ''Infinity'' then (if minus_sign t then NInf else PInf)
         else
           (let ip = takeWhile is_digit u;
                r1 = dropWhile is_digit u;
                dot = (case r1 of c # _ \<Rightarrow> c = CHR ''.'' | [] \<Rightarrow> False);
                fp = (if dot then takeWhile is_digit (tl r1) else []);
                r2 = (if dot then dropWhile is_digit (tl r1) else r1)
            in if ip = [] \<and> fp = [] then NaN
               else
                 (let v = (of_nat (digits_value ip) + of_nat (digits_value fp) / 10 ^ length fp)
                          * 10 powi exponent_part r2
                  in round_to_double (if minus_sign t then - v else v))))"

section \<open>The render buffer\<close>

text \<open>
  The children of the track, lines 317 to 356: the items mapped twice, once per
  \<open>copyIndex\<close>; React lays the nested arrays out in order. The wrappers around the track
  carry no item and are left out.
\<close>

datatype node =
    Img string string string
  | Logo_placeholder string
  | Text_span string

record rendered_item =
  key :: string
  div_className :: string
  onClick :: "SliderItem \<times> nat"
  cursor :: string
  content :: "node list"

fun string_of_nat :: "nat \<Rightarrow> string" where
  \<comment> \<open>a non-negative integer inside a template literal: its decimal digits\<close>
  "string_of_nat n =
     (if n < 10 then [''0123456789'' ! n]
      else string_of_nat (n div 10) @ [''0123456789'' ! (n mod 10)])"

declare string_of_nat.simps [simp del]

definition or_else :: "string option \<Rightarrow> string \<Rightarrow> string" where
  \<comment> \<open>\<^verbatim>\<open>a || b\<close> on an optional string\<close>
  "or_else a b = (if str_truthy a then the a else b)"

definition itemKey :: "SliderItem \<Rightarrow> nat \<Rightarrow> nat \<Rightarrow> string" where
  \<comment> \<open>line 319\<close>
  "itemKey item i copyIndex =
     or_else (item_id item) (string_of_nat i @ ''-'' @ string_of_nat copyIndex)"

definition invert_class :: "SliderItem \<Rightarrow> string" where
  "invert_class item = (if invertDark item = Some True then ''infinite-slider-invert-dark'' else [])"

definition render_item ::
  "InfiniteSliderProps \<Rightarrow> bool \<Rightarrow> nat \<Rightarrow> nat \<Rightarrow> SliderItem \<Rightarrow> rendered_item" where
  "render_item p shouldLoad_now copyIndex i item =
     (let hasLogo = str_truthy (logo item); hasText = str_truthy (item_text item)
      in \<lparr>key = itemKey item i copyIndex,
          div_className = ''infinite-slider-item '' @ itemClassName p @ '' ''
                          @ or_else (item_className item) [],
          onClick = (item, i),
          cursor = (if onItemClick p then ''pointer'' else ''default''),
          content =
            (if shouldLoad_now \<and> hasLogo
             then [Img (the (logo item)) (or_else (alt item) (or_else (item_text item) []))
                       (''infinite-slider-logo '' @ invert_class item)]
             else [])
            @ (if \<not> shouldLoad_now \<and> hasLogo
               then [Logo_placeholder (''infinite-slider-logo-placeholder '' @ invert_class item)]
               else [])
            @ (if hasText then [Text_span (the (item_text item))] else [])\<rparr>)"

definition render_copy :: "InfiniteSliderProps \<Rightarrow> bool \<Rightarrow> nat \<Rightarrow> rendered_item list" where
  "render_copy p shouldLoad_now copyIndex =
     map (\<lambda>(i, item). render_item p shouldLoad_now copyIndex i item) (enumerate 0 (items p))"

definition render_buffer :: "InfiniteSliderProps \<Rightarrow> bool \<Rightarrow> rendered_item list" where
  "render_buffer p shouldLoad_now = concat (map (render_copy p shouldLoad_now) [0..<2])"

section \<open>State, effects and the first pass\<close>

text \<open>
  The three \<^verbatim>\<open>useState\<close> cells, and one record per run of the preloading effect for the
  variables its closure holds. An effect reads the state its render captured; a setter
  takes effect in the state handed to the next render.
\<close>

record component_state =
  isVisible :: bool
  shouldLoad :: bool
  imagesLoaded :: bool

record preload_closure =
  loadedCount :: nat
  totalImages :: nat

record runtime =
  state :: component_state
  closures :: "preload_closure list"

datatype event =
    Commit "rendered_item list"
  | Console_error nat "SliderItem list"
  | New_IntersectionObserver string
  | Observer_observe
  | Create_img nat string

definition initial_runtime :: runtime where
  "initial_runtime =
     \<lparr>state = \<lparr>isVisible = False, shouldLoad = False, imagesLoaded = False\<rparr>, closures = []\<rparr>"

definition invalidItems :: "SliderItem list \<Rightarrow> SliderItem list" where
  "invalidItems its = filter (\<lambda>item. \<not> str_truthy (logo item) \<and> \<not> str_truthy (item_text item)) its"

definition validate_effect :: "SliderItem list \<Rightarrow> event list \<times> (js_error + unit)" where
  \<comment> \<open>lines 97 to 108\<close>
  "validate_effect its =
     (if 0 < length (invalidItems its)
      then ([Console_error (length (invalidItems its)) (invalidItems its)],
            Inl (Error ''InfiniteSlider: All items must have either a logo or text property.''))
      else ([], Inr ()))"

definition lazy_load_effect ::
  "bool \<Rightarrow> bool \<Rightarrow> InfiniteSliderProps \<Rightarrow> runtime \<Rightarrow> event list \<times> runtime" where
  \<comment> \<open>lines 111 to 140; \<open>window_defined\<close> is \<^verbatim>\<open>typeof window !== "undefined"\<close>,
      \<open>element_found\<close> the result of \<^verbatim>\<open>getElementById\<close>\<close>
  "lazy_load_effect window_defined element_found p rt =
     (if \<not> lazyLoad p
      then ([], rt\<lparr>state := (state rt)\<lparr>isVisible := True, shouldLoad := True\<rparr>\<rparr>)
      else if \<not> window_defined then ([], rt)
      else (New_IntersectionObserver (rootMargin p) # (if element_found then [Observer_observe] else []),
            rt))"

fun array_from_set :: "'a list \<Rightarrow> 'a list" where
  \<comment> \<open>\<^verbatim>\<open>Array.from(new Set(xs))\<close>: the first occurrence of each value, in order\<close>
  "array_from_set [] = []"
| "array_from_set (x # xs) = x # array_from_set (filter (\<lambda>y. y \<noteq> x) xs)"

definition imageUrls :: "SliderItem list \<Rightarrow> string list" where
  \<comment> \<open>lines 149 to 151\<close>
  "imageUrls its = array_from_set (map the (filter str_truthy (map logo its)))"

definition preload_effect ::
  "bool \<Rightarrow> bool \<Rightarrow> SliderItem list \<Rightarrow> runtime \<Rightarrow> event list \<times> runtime" where
  \<comment> \<open>lines 143 to 175; \<open>shouldLoad_now\<close> is the value the render captured\<close>
  "preload_effect window_defined shouldLoad_now its rt =
     (if \<not> shouldLoad_now then ([], rt)
      else if \<not> window_defined then ([], rt)
      else if length (imageUrls its) = 0
           then ([], rt\<lparr>state := (state rt)\<lparr>imagesLoaded := True\<rparr>\<rparr>)
           else (map (Create_img (length (closures rt))) (imageUrls its),
                 rt\<lparr>closures := closures rt
                       @ [\<lparr>loadedCount = 0, totalImages = length (imageUrls its)\<rparr>]\<rparr>))"

definition checkAllLoaded :: "nat \<Rightarrow> runtime \<Rightarrow> runtime" where
  \<comment> \<open>lines 161 to 166, in the closure of the \<open>k\<close>-th run of the effect; both
      \<^verbatim>\<open>img.onload\<close> and \<^verbatim>\<open>img.onerror\<close> are this function\<close>
  "checkAllLoaded k rt =
     (if k < length (closures rt) then
        (let c = (closures rt ! k)\<lparr>loadedCount := loadedCount (closures rt ! k) + 1\<rparr>;
             rt' = rt\<lparr>closures := (closures rt)[k := c]\<rparr>
         in if loadedCount c = totalImages c
            then rt'\<lparr>state := (state rt')\<lparr>imagesLoaded := True\<rparr>\<rparr> else rt')
      else rt)"

partial_function (option) setupAnimation ::
  "(string \<Rightarrow> jsnum) \<Rightarrow> InfiniteSliderProps \<Rightarrow> (nat \<Rightarrow> layout) \<Rightarrow> nat
     \<Rightarrow> (nat \<times> (js_error + dom_op list)) option" where
  \<comment> \<open>lines 186 to 197. \<open>doc n\<close> is the document at the \<open>n\<close>-th timer callback of the
      effect. A call that finds no child sets a timer for the next call; the first call
      that finds one sets the timer for \<open>calculateAndSetWidth\<close>. The result is the
      number of that call and what the measurement did; None when no call ever ends
      the polling.\<close>
  "setupAnimation parseFloat p doc n =
     (if length (children (doc n)) = 0 then setupAnimation parseFloat p doc (n + 1)
      else Some (n, calculateAndSetWidth parseFloat p (doc (n + 1))))"

definition animation_effect ::
  "bool \<Rightarrow> bool \<Rightarrow> (string \<Rightarrow> jsnum) \<Rightarrow> InfiniteSliderProps \<Rightarrow> component_state
     \<Rightarrow> (nat \<Rightarrow> layout) \<Rightarrow> (nat \<times> (js_error + dom_op list)) option option" where
  \<comment> \<open>lines 178 to 272: None when the effect returns at one of its guards, else the
      run of \<open>setupAnimation\<close>\<close>
  "animation_effect window_defined containerRef_current parseFloat p st doc =
     (if \<not> containerRef_current \<or> \<not> shouldLoad st \<or> \<not> imagesLoaded st then None
      else if \<not> window_defined then None
      else Some (setupAnimation parseFloat p doc 0))"

definition mount :: "bool \<Rightarrow> InfiniteSliderProps \<Rightarrow> event list \<times> (js_error + runtime)" where
  \<comment> \<open>The first pass in a browser: React calls the function with the initial state,
      commits the returned elements to the document, then runs the effects in the
      order of their declaration; an effect that throws ends the pass. With the initial
      state the third and fourth effects return at their first guard.\<close>
  "mount window_defined p =
     (let rt0 = initial_runtime;
          committed = [Commit (render_buffer p (shouldLoad (state rt0)))]
      in case validate_effect (items p) of
           (logged, Inl e) \<Rightarrow> (committed @ logged, Inl e)
         | (logged, Inr _) \<Rightarrow>
             (let (ev2, rt2) = lazy_load_effect window_defined True p rt0;
                  (ev3, rt3) = preload_effect window_defined (shouldLoad (state rt0)) (items p) rt2
              in (committed @ logged @ ev2 @ ev3, Inr rt3)))"

definition is_render_effect :: "event \<Rightarrow> bool" where
  \<comment> \<open>what a pass does to the document and the host, as opposed to the console\<close>
  "is_render_effect ev = (case ev of Console_error _ _ \<Rightarrow> False | _ \<Rightarrow> True)"

section \<open>Example inputs\<close>

definition text_item :: "string \<Rightarrow> SliderItem" where
  "text_item t = \<lparr>item_id = None, logo = None, item_text = Some t, alt = None,
                  invertDark = None, item_className = None\<rparr>"

definition logo_item :: "string \<Rightarrow> SliderItem" where
  "logo_item url = \<lparr>item_id = None, logo = Some url, item_text = None, alt = None,
                    invertDark = None, item_className = None\<rparr>"

definition empty_item :: SliderItem where
  "empty_item = \<lparr>item_id = None, logo = None, item_text = None, alt = None,
                 invertDark = None, item_className = None\<rparr>"

definition box :: "int \<Rightarrow> int \<Rightarrow> element" where
  "box l w = \<lparr>offsetLeft = l, offsetWidth = w\<rparr>"

definition abc_props :: InfiniteSliderProps where
  \<comment> \<open>three text items, duration 30, speed 1, baseWidth 5000, gap 48\<close>
  "abc_props = (default_props [text_item ''A'', text_item ''B'', text_item ''C''])
                 \<lparr>gap := GapNumber (Fin 48)\<rparr>"

definition abc_layout :: layout where
  \<comment> \<open>both copies laid out: items 352 wide, 48 apart, one copy every 1200\<close>
  "abc_layout = \<lparr>children = [box 0 352, box 400 352, box 800 352,
                             box 1200 352, box 1600 352, box 2000 352],
                 computed_gap = ''48px''\<rparr>"

definition one_copy_layout :: layout where
  \<comment> \<open>one copy only, no computed gap\<close>
  "one_copy_layout = \<lparr>children = [box 0 352, box 400 352, box 800 352], computed_gap = []\<rparr>"

definition two_boxes_layout :: layout where
  \<comment> \<open>fewer children than one copy, no computed gap\<close>
  "two_boxes_layout = \<lparr>children = [box 0 352, box 400 352], computed_gap = []\<rparr>"

definition no_children :: "nat \<Rightarrow> layout" where
  \<comment> \<open>a track that never gets a child\<close>
  "no_children n = \<lparr>children = [], computed_gap = ''48px''\<rparr>"

definition narrow_props :: InfiniteSliderProps where
  \<comment> \<open>two text items and a gap of 24.5 pixels\<close>
  "narrow_props = (default_props [text_item ''A'', text_item ''B''])
                    \<lparr>gap := GapNumber (Fin (49 / 2))\<rparr>"

definition narrow_layout :: layout where
  \<comment> \<open>both copies laid out, items 20 wide: the second copy starts at 89\<close>
  "narrow_layout = \<lparr>children = [box 0 20, box 45 20, box 89 20, box 134 20],
                    computed_gap = ''24.5px''\<rparr>"

definition unlaid_layout :: layout where
  \<comment> \<open>both copies present and nothing laid out yet: every box at 0 and 0 wide\<close>
  "unlaid_layout = \<lparr>children = [box 0 0, box 0 0, box 0 0, box 0 0, box 0 0, box 0 0],
                    computed_gap = ''0px''\<rparr>"

definition infinite_gap_props :: InfiniteSliderProps where
  \<comment> \<open>one text item, and \<^verbatim>\<open>gap={Infinity}\<close>\<close>
  "infinite_gap_props = (default_props [text_item ''A''])\<lparr>gap := GapNumber PInf\<rparr>"

definition single_layout :: layout where
  \<comment> \<open>one child, no computed gap\<close>
  "single_layout = \<lparr>children = [box 0 300], computed_gap = []\<rparr>"

definition gap24_props :: InfiniteSliderProps where
  "gap24_props = abc_props\<lparr>gap := GapNumber (Fin 24)\<rparr>"

definition zero_base_props :: InfiniteSliderProps where
  "zero_base_props = abc_props\<lparr>baseWidth := Fin 0\<rparr>"

definition keyed_props :: InfiniteSliderProps where
  \<comment> \<open>the second item has an id\<close>
  "keyed_props = default_props [text_item ''A'', (text_item ''B'')\<lparr>item_id := Some ''b''\<rparr>]"

definition one_invalid_props :: InfiniteSliderProps where
  "one_invalid_props = default_props [text_item ''A'', empty_item]"

definition eager_props :: InfiniteSliderProps where
  "eager_props = (default_props [text_item ''A''])\<lparr>lazyLoad := False\<rparr>"

definition children_after :: "nat \<Rightarrow> nat \<Rightarrow> layout" where
  \<comment> \<open>a track that is empty at the first \<open>k\<close> callbacks and laid out from then on\<close>
  "children_after k n = (if n < k then \<lparr>children = [], computed_gap = ''48px''\<rparr> else abc_layout)"

definition gate_open_runtime :: runtime where
  \<comment> \<open>after the gate has opened, before any image is requested\<close>
  "gate_open_runtime =
     \<lparr>state = \<lparr>isVisible = True, shouldLoad = True, imagesLoaded = False\<rparr>, closures = []\<rparr>"

definition first_sequence_loaded :: runtime where
  \<comment> \<open>the items are one logo, and its image has settled\<close>
  "first_sequence_loaded =
     checkAllLoaded 0 (snd (preload_effect True True [logo_item ''a.png''] gate_open_runtime))"

section \<open>Facts about rounding\<close>

lemma powi_pos: "0 < (2::rat) powi k"
  by (simp add: power_int_def)

lemma powi_nat: "0 \<le> k \<Longrightarrow> (2::rat) powi k = of_int (2 ^ nat k)"
  by (simp add: power_int_def)

lemma expo_bounds:
  assumes "r \<noteq> 0"
  shows "2 powi expo r \<le> \<bar>r\<bar>" and "\<bar>r\<bar> < 2 powi (expo r + 1)"
proof -
  obtain a b where ab: "quotient_of \<bar>r\<bar> = (a, b)" by (cases "quotient_of \<bar>r\<bar>")
  have bpos: "0 < b" using ab by (rule quotient_of_denom_pos)
  have req: "\<bar>r\<bar> = of_int a / of_int b" using ab by (rule quotient_of_div)
  have xpos: "0 < \<bar>r\<bar>" using assms by simp
  have apos: "0 < a" using xpos bpos req
    by (simp add: zero_less_divide_iff)
  define la where "la = bitlen a"
  define lb where "lb = bitlen b"
  have la1: "1 \<le> la" and lb1: "1 \<le> lb"
    using apos bpos by (simp_all add: la_def lb_def bitlen_alt_def)
  have A: "(2::int) ^ nat (la - 1) \<le> a" "a < 2 ^ nat la"
    using bitlen_bounds[OF apos] by (simp_all add: la_def)
  have B: "(2::int) ^ nat (lb - 1) \<le> b" "b < 2 ^ nat lb"
    using bitlen_bounds[OF bpos] by (simp_all add: lb_def)
  have A1: "(2::rat) powi (la - 1) \<le> of_int a"
  proof -
    have "0 \<le> la - 1" using la1 by simp
    then have "(2::rat) powi (la - 1) = of_int (2 ^ nat (la - 1))" by (rule powi_nat)
    then show ?thesis using A(1) by (simp only: of_int_le_iff)
  qed
  have A2: "(of_int a :: rat) < 2 powi la"
  proof -
    have "0 \<le> la" using la1 by simp
    then have "(2::rat) powi la = of_int (2 ^ nat la)" by (rule powi_nat)
    then show ?thesis using A(2) by (simp only: of_int_less_iff)
  qed
  have B1: "(2::rat) powi (lb - 1) \<le> of_int b"
  proof -
    have "0 \<le> lb - 1" using lb1 by simp
    then have "(2::rat) powi (lb - 1) = of_int (2 ^ nat (lb - 1))" by (rule powi_nat)
    then show ?thesis using B(1) by (simp only: of_int_le_iff)
  qed
  have B2: "(of_int b :: rat) < 2 powi lb"
  proof -
    have "0 \<le> lb" using lb1 by simp
    then have "(2::rat) powi lb = of_int (2 ^ nat lb)" by (rule powi_nat)
    then show ?thesis using B(2) by (simp only: of_int_less_iff)
  qed
  have bq: "0 < (of_int b :: rat)" using bpos by simp
  have lo: "2 powi (la - lb - 1) \<le> \<bar>r\<bar>"
  proof -
    have "(2::rat) powi (la - lb - 1) = 2 powi (la - 1) / 2 powi lb"
      by (simp add: power_int_diff)
    also have "\<dots> \<le> of_int a / 2 powi lb"
      using A1 powi_pos[of lb] by (simp add: divide_right_mono)
    also have "\<dots> \<le> of_int a / of_int b"
      using B2 bq apos by (simp add: frac_le)
    finally show ?thesis using req by simp
  qed
  have hi: "\<bar>r\<bar> < 2 powi (la - lb + 1)"
  proof -
    have "\<bar>r\<bar> = of_int a / of_int b" by (rule req)
    also have "\<dots> < 2 powi la / of_int b"
      using A2 bq by (simp add: divide_strict_right_mono)
    also have "\<dots> \<le> 2 powi la / 2 powi (lb - 1)"
      using B1 powi_pos[of "lb - 1"] powi_pos[of la] by (simp add: frac_le)
    also have "\<dots> = 2 powi (la - lb + 1)"
      by (simp add: power_int_diff power_int_add)
    finally show ?thesis .
  qed
  have ex: "expo r = (if 2 powi (la - lb) \<le> \<bar>r\<bar> then la - lb else la - lb - 1)"
    by (simp add: expo_def ab la_def lb_def Let_def)
  show "2 powi expo r \<le> \<bar>r\<bar>" using lo by (simp add: ex)
  show "\<bar>r\<bar> < 2 powi (expo r + 1)" using hi by (auto simp add: ex not_le)
qed

lemma expo_le: "r \<noteq> 0 \<Longrightarrow> \<bar>r\<bar> < 2 powi (m + 1) \<Longrightarrow> expo r \<le> m"
proof (rule ccontr)
  assume r: "r \<noteq> 0" and lt: "\<bar>r\<bar> < 2 powi (m + 1)" and n: "\<not> expo r \<le> m"
  then have "m + 1 \<le> expo r" by simp
  then have "(2::rat) powi (m + 1) \<le> 2 powi expo r" by (simp add: power_int_increasing)
  also have "\<dots> \<le> \<bar>r\<bar>" using r by (rule expo_bounds)
  finally show False using lt by simp
qed

lemma expo_ge: "r \<noteq> 0 \<Longrightarrow> 2 powi m \<le> \<bar>r\<bar> \<Longrightarrow> m \<le> expo r"
proof (rule ccontr)
  assume r: "r \<noteq> 0" and le: "2 powi m \<le> \<bar>r\<bar>" and n: "\<not> m \<le> expo r"
  then have "expo r + 1 \<le> m" by simp
  then have "(2::rat) powi (expo r + 1) \<le> 2 powi m" by (simp add: power_int_increasing)
  moreover have "\<bar>r\<bar> < 2 powi (expo r + 1)" using r by (rule expo_bounds)
  ultimately show False using le by simp
qed

lemma expo_eqI: "r \<noteq> 0 \<Longrightarrow> 2 powi m \<le> \<bar>r\<bar> \<Longrightarrow> \<bar>r\<bar> < 2 powi (m + 1) \<Longrightarrow> expo r = m"
  using expo_le[of r m] expo_ge[of r m] by simp

lemma expo_double: "r \<noteq> 0 \<Longrightarrow> expo (2 * r) = expo r + 1"
proof (rule expo_eqI)
  assume r: "r \<noteq> 0"
  show "2 * r \<noteq> 0" using r by simp
  show "2 powi (expo r + 1) \<le> \<bar>2 * r\<bar>"
    using expo_bounds(1)[OF r] by (simp add: power_int_add abs_mult)
  show "\<bar>2 * r\<bar> < 2 powi (expo r + 1 + 1)"
    using expo_bounds(2)[OF r] by (simp add: power_int_add abs_mult)
qed

text \<open>
  Doubling commutes with rounding as long as the exact value keeps its 53 bits: the
  exponent goes up by one and the significand is the same.
\<close>

lemma round_to_double_double:
  assumes r: "r \<noteq> 0" and n: "- 1022 \<le> expo r" and v: "round_to_double r = Fin v"
  shows "round_to_double (2 * r) =
           (if 2 powi 1024 \<le> \<bar>2 * v\<bar> then (if 0 < r then PInf else NInf) else Fin (2 * v))"
proof -
  define q where "q = (2::rat) powi (expo r - 52)"
  have qpos: "0 < q" by (simp add: q_def powi_pos)
  have m1: "max (expo r) (- 1022) = expo r" using n by simp
  have m2: "max (expo (2 * r)) (- 1022) = expo r + 1" using n r by (simp add: expo_double)
  have q2: "(2::rat) powi (expo r + 1 - 52) = 2 * q"
    by (simp add: q_def power_int_diff power_int_add)
  have veq: "v = of_int (round_half_even (r / q)) * q"
    using v r unfolding round_to_double_def m1 q_def[symmetric] Let_def
    by (simp split: if_splits)
  have quot: "2 * r / (2 * q) = r / q" using qpos by simp
  show ?thesis
    using r unfolding round_to_double_def[of "2 * r"] m2 q2 Let_def quot
    by (simp add: veq mult.assoc mult.left_commute)
qed

lemma round_to_double_scaled:
  assumes "normal_or_zero r" and "round_to_double r = Fin v" and "\<bar>2 * v\<bar> < 2 powi 1024"
  shows "round_to_double (2 * r) = Fin (2 * v)"
proof (cases "r = 0")
  case True
  then show ?thesis using assms(2) by (simp add: round_to_double_def)
next
  case False
  then have "2 powi (- 1022) \<le> \<bar>r\<bar>" using assms(1) by (simp add: normal_or_zero_def)
  then have "- 1022 \<le> expo r" using False by (rule expo_ge[rotated])
  from round_to_double_double[OF False this assms(2)] assms(3)
  show ?thesis by (simp add: not_le[symmetric])
qed

lemma normal_or_zeroI: "1 / 1024 \<le> \<bar>x\<bar> \<Longrightarrow> normal_or_zero x"
proof -
  assume a: "1 / 1024 \<le> \<bar>x\<bar>"
  have "(2::rat) powi (- 1022) \<le> 2 powi (- 10)" by (rule power_int_increasing) simp_all
  also have "(2::rat) powi (- 10) = 1 / 1024" by (simp add: power_int_minus_divide)
  finally show ?thesis using a by (simp add: normal_or_zero_def)
qed

lemma below_overflowI: "\<bar>x\<bar> < 1024 \<Longrightarrow> \<bar>x\<bar> < (2::rat) powi 1024"
proof -
  assume a: "\<bar>x\<bar> < 1024"
  have "(2::rat) powi 10 \<le> 2 powi 1024" by (rule power_int_increasing) simp_all
  moreover have "(2::rat) powi 10 = 1024" by simp
  ultimately show ?thesis using a by simp
qed

text \<open>The overflow test by exponents, for evaluation.\<close>

lemma overflow_iff_expo: "v \<noteq> 0 \<Longrightarrow> 2 powi 1024 \<le> \<bar>v\<bar> \<longleftrightarrow> 1024 \<le> expo v"
proof
  assume "v \<noteq> 0" "2 powi 1024 \<le> \<bar>v\<bar>"
  then show "1024 \<le> expo v" by (rule expo_ge)
next
  assume v: "v \<noteq> 0" and e: "1024 \<le> expo v"
  have "(2::rat) powi 1024 \<le> 2 powi expo v" using e by (rule power_int_increasing) simp
  also have "\<dots> \<le> \<bar>v\<bar>" using v by (rule expo_bounds)
  finally show "2 powi 1024 \<le> \<bar>v\<bar>" .
qed

lemma round_to_double_code [code]:
  "round_to_double r =
     (if r = 0 then Fin 0
      else let q = 2 powi (max (expo r) (- 1022) - 52);
               v = of_int (round_half_even (r / q)) * q
           in if v \<noteq> 0 \<and> 1024 \<le> expo v then (if 0 < r then PInf else NInf) else Fin v)"
proof -
  have "2 powi 1024 \<le> \<bar>v\<bar> \<longleftrightarrow> v \<noteq> 0 \<and> 1024 \<le> expo v" for v :: rat
    using overflow_iff_expo[of v] powi_pos[of 1024] by (cases "v = 0") auto
  then show ?thesis by (simp add: round_to_double_def Let_def)
qed

lemma js_mul_not_finite: "\<not> is_finite x \<Longrightarrow> \<not> is_finite (js_mul x y)"
  by (cases x; cases y) (simp_all add: is_finite_def)

lemma js_div_zero_not_finite: "\<not> is_finite (js_div x (Fin 0))"
  by (cases x) (simp_all add: is_finite_def is_neg_def)

lemma scrollDuration_double_duration:
  assumes q: "js_div r bw = Fin a"
    and n1: "normal_or_zero (a * d)" and m1: "js_mul (Fin a) (Fin d) = Fin t1"
    and o1: "\<bar>2 * t1\<bar> < 2 powi 1024"
    and n2: "normal_or_zero (t1 * s)" and m2: "scrollDuration r bw (Fin d) (Fin s) = Fin t"
    and o2: "\<bar>2 * t\<bar> < 2 powi 1024"
  shows "scrollDuration r bw (Fin (2 * d)) (Fin s) = Fin (2 * t)"
proof -
  have r1: "round_to_double (a * d) = Fin t1" using m1 by simp
  have r2: "round_to_double (t1 * s) = Fin t"
    using m2 by (simp add: scrollDuration_def q r1)
  have "round_to_double (2 * (a * d)) = Fin (2 * t1)"
    using n1 r1 o1 by (rule round_to_double_scaled)
  moreover have "round_to_double (2 * (t1 * s)) = Fin (2 * t)"
    using n2 r2 o2 by (rule round_to_double_scaled)
  ultimately show ?thesis
    by (simp add: scrollDuration_def q mult.assoc mult.left_commute)
qed

lemma scrollDuration_double_speed:
  assumes m1: "js_mul (js_div r bw) (Fin d) = Fin t1"
    and n2: "normal_or_zero (t1 * s)" and m2: "scrollDuration r bw (Fin d) (Fin s) = Fin t"
    and o2: "\<bar>2 * t\<bar> < 2 powi 1024"
  shows "scrollDuration r bw (Fin d) (Fin (2 * s)) = Fin (2 * t)"
proof -
  have r2: "round_to_double (t1 * s) = Fin t"
    using m2 by (simp add: scrollDuration_def m1)
  have "round_to_double (2 * (t1 * s)) = Fin (2 * t)"
    using n2 r2 o2 by (rule round_to_double_scaled)
  then show ?thesis
    by (simp add: scrollDuration_def m1 mult.assoc mult.left_commute)
qed

section \<open>The render buffer and its keys\<close>

lemma string_of_nat_digit: "string_of_nat 0 = ''0''" "string_of_nat (Suc 0) = ''1''"
  by (simp_all add: string_of_nat.simps)

lemma length_render_copy: "length (render_copy p sl c) = length (items p)"
  by (simp add: render_copy_def)

lemma nth_render_copy:
  "i < length (items p) \<Longrightarrow> render_copy p sl c ! i = render_item p sl c i (items p ! i)"
  by (simp add: render_copy_def nth_enumerate_eq)

lemma render_buffer_append: "render_buffer p sl = render_copy p sl 0 @ render_copy p sl 1"
proof -
  have "[0..<2] = [0, Suc 0]" by (simp add: upt_rec)
  then show ?thesis by (simp add: render_buffer_def)
qed

lemma render_item_key_only:
  "(render_item p sl 0 i item)\<lparr>key := k\<rparr> = (render_item p sl 1 i item)\<lparr>key := k\<rparr>"
  by (simp add: render_item_def Let_def)

lemma render_copy_items: "map (fst \<circ> onClick) (render_copy p sl c) = items p"
  by (rule nth_equalityI) (simp_all add: length_render_copy nth_render_copy render_item_def Let_def)

lemma render_copy_same_but_key:
  "map (\<lambda>r. r\<lparr>key := []\<rparr>) (render_copy p sl 0) = map (\<lambda>r. r\<lparr>key := []\<rparr>) (render_copy p sl 1)"
  by (rule nth_equalityI) (simp_all add: length_render_copy nth_render_copy render_item_key_only)

text \<open>
  Claim C1, as the code has it. The buffer is the copy for \<open>copyIndex = 0\<close> followed by
  the copy for \<open>copyIndex = 1\<close>; each copy holds the items in their order, and the two
  copies are equal element by element once the keys are set aside. An item without an
  id (or with the empty id) gets the key \<open>i-0\<close> in the first copy and \<open>i-1\<close> in the
  second, two different strings; an item with an id gets its id as key in both copies.
\<close>

theorem buffer_is_two_copies:
  "render_buffer p sl = render_copy p sl 0 @ render_copy p sl 1
   \<and> map (fst \<circ> onClick) (render_copy p sl 0) = items p
   \<and> map (fst \<circ> onClick) (render_copy p sl 1) = items p
   \<and> map (\<lambda>r. r\<lparr>key := []\<rparr>) (render_copy p sl 0) = map (\<lambda>r. r\<lparr>key := []\<rparr>) (render_copy p sl 1)
   \<and> (\<forall>i < length (items p).
         (str_truthy (item_id (items p ! i)) \<longrightarrow>
            key (render_copy p sl 0 ! i) = the (item_id (items p ! i))
            \<and> key (render_copy p sl 1 ! i) = the (item_id (items p ! i)))
         \<and> (\<not> str_truthy (item_id (items p ! i)) \<longrightarrow>
            key (render_copy p sl 0 ! i) = string_of_nat i @ ''-0''
            \<and> key (render_copy p sl 1 ! i) = string_of_nat i @ ''-1''
            \<and> key (render_copy p sl 0 ! i) \<noteq> key (render_copy p sl 1 ! i)))"
  by (simp add: render_buffer_append render_copy_items render_copy_same_but_key
      nth_render_copy render_item_def Let_def itemKey_def or_else_def string_of_nat_digit)

text \<open>Two items, the second with the id \<open>b\<close>: the keys of the buffer.\<close>

theorem buffer_is_two_copies_witness:
  "length (items keyed_props) = 2
   \<and> \<not> str_truthy (item_id (items keyed_props ! 0))
   \<and> str_truthy (item_id (items keyed_props ! 1))
   \<and> key (render_copy keyed_props False 0 ! 0) = ''0-0''
   \<and> key (render_copy keyed_props False 1 ! 0) = ''0-1''
   \<and> key (render_copy keyed_props False 0 ! 1) = ''b''
   \<and> key (render_copy keyed_props False 1 ! 1) = ''b''
   \<and> render_buffer keyed_props False
       = render_copy keyed_props False 0 @ render_copy keyed_props False 1"
proof -
  have h: "length (items keyed_props) = 2"
    "\<not> str_truthy (item_id (items keyed_props ! 0))"
    "str_truthy (item_id (items keyed_props ! 1))"
    "the (item_id (items keyed_props ! 1)) = ''b''"
    by (simp_all add: keyed_props_def default_props_def text_item_def str_truthy_def)
  from buffer_is_two_copies[of keyed_props False] h
  show ?thesis by (simp add: string_of_nat_digit)
qed

text \<open>
  Claim C1 as stated asks for distinct keys in the two halves for every item. One item
  with the id \<open>a\<close>: both of its instances carry the key \<open>a\<close>.
\<close>

theorem items_with_id_share_their_key:
  "map key (render_buffer (default_props [(text_item ''A'')\<lparr>item_id := Some ''a''\<rparr>]) False)
     = [''a'', ''a'']"
  by code_simp

section \<open>Validation\<close>

lemma invalidItems_nonempty:
  "0 < length (invalidItems its) \<longleftrightarrow>
     (\<exists>item \<in> set its. \<not> str_truthy (logo item) \<and> \<not> str_truthy (item_text item))"
  by (auto simp add: invalidItems_def filter_empty_conv)

text \<open>
  Claim C2, as the code has it. When some item has neither a logo nor a text, the first
  pass commits the doubled buffer of that sequence, then the validation effect writes
  the items at fault to the console and throws; the pass ends there, before an observer
  is created or an image requested.
\<close>

theorem invalid_item_throws_after_first_commit:
  assumes "\<exists>item \<in> set (items p). \<not> str_truthy (logo item) \<and> \<not> str_truthy (item_text item)"
  shows "mount w p =
           ([Commit (render_buffer p False),
             Console_error (length (invalidItems (items p))) (invalidItems (items p))],
            Inl (Error ''InfiniteSlider: All items must have either a logo or text property.''))
         \<and> 0 < length (invalidItems (items p))"
  using assms invalidItems_nonempty[of "items p"]
  by (simp add: mount_def validate_effect_def initial_runtime_def Let_def)

text \<open>A valid item followed by one with neither logo nor text, without a window.\<close>

theorem invalid_item_throws_after_first_commit_witness:
  "(\<exists>item \<in> set (items one_invalid_props).
      \<not> str_truthy (logo item) \<and> \<not> str_truthy (item_text item))
   \<and> mount False one_invalid_props =
       ([Commit (render_buffer one_invalid_props False), Console_error 1 [empty_item]],
        Inl (Error ''InfiniteSlider: All items must have either a logo or text property.''))"
proof -
  have h: "\<exists>item \<in> set (items one_invalid_props).
      \<not> str_truthy (logo item) \<and> \<not> str_truthy (item_text item)"
    by (simp add: one_invalid_props_def default_props_def empty_item_def str_truthy_def)
  have i: "invalidItems (items one_invalid_props) = [empty_item]"
    by (simp add: invalidItems_def one_invalid_props_def default_props_def empty_item_def
        text_item_def str_truthy_def)
  from invalid_item_throws_after_first_commit[OF h, of False] h i
  show ?thesis by simp
qed

text \<open>
  Claim C2 as stated puts the rejection before every rendering side effect. One item
  with neither logo nor text: the pass starts by committing the two elements rendered
  for it, and the fault follows.
\<close>

theorem invalid_sequence_is_committed_before_the_fault:
  "mount True (default_props [empty_item]) =
     ([Commit (render_buffer (default_props [empty_item]) False), Console_error 1 [empty_item]],
      Inl (Error ''InfiniteSlider: All items must have either a logo or text property.''))
   \<and> is_render_effect (Commit (render_buffer (default_props [empty_item]) False))
   \<and> map key (render_buffer (default_props [empty_item]) False) = [''0-0'', ''0-1'']"
  by code_simp

text \<open>
  In the first pass the animation effect returns at its first guard, as the preloading
  effect does; \<open>mount\<close> has nothing to record for it.
\<close>

lemma animation_effect_at_mount:
  "animation_effect w c pf p (state initial_runtime) doc = None"
  by (simp add: animation_effect_def initial_runtime_def)

section \<open>Duration\<close>

text \<open>
  Claim C3, as the code has it. A positive distance \<open>w\<close> is rounded to a whole pixel
  first, and the published duration is that rounded distance divided by \<open>baseWidth\<close>,
  times \<open>duration\<close>, times \<open>speed\<close>, each operation rounded to a double. Doubling the
  duration, or the speed, doubles the published duration when the exact products are
  zero or at least \<open>2^-1022\<close> in magnitude and the doubled values are below \<open>2^1024\<close>.
  With a distance of 1200, duration 30, speed 1 and baseWidth 5000 the published
  duration is \<open>2026619832316723 / 2^48\<close>, which JavaScript prints as 7.199999999999999.
\<close>

theorem cycle_duration_formula:
  "(children lay \<noteq> [] \<and> halfTotalWidth pf p lay = Inr w \<and> js_gt w (Fin 0) \<longrightarrow>
      calculateAndSetWidth pf p lay =
        Inr [SetProperty ''--total-width'' (Px (Math_round w)),
             SetProperty ''--scroll-duration''
               (Seconds (js_mul (js_mul (js_div (Math_round w) (baseWidth p)) (duration p)) (speed p))),
             RequestAnimationFrame_classList_add ''infinite-slider-ready''])
   \<and> (js_div r bw = Fin a \<and> js_mul (Fin a) (Fin d) = Fin t1
        \<and> scrollDuration r bw (Fin d) (Fin s) = Fin t
        \<and> normal_or_zero (a * d) \<and> normal_or_zero (t1 * s)
        \<and> \<bar>2 * t1\<bar> < 2 powi 1024 \<and> \<bar>2 * t\<bar> < 2 powi 1024 \<longrightarrow>
        scrollDuration r bw (Fin (2 * d)) (Fin s) = Fin (2 * t))
   \<and> (js_mul (js_div r bw) (Fin d) = Fin t1
        \<and> scrollDuration r bw (Fin d) (Fin s) = Fin t
        \<and> normal_or_zero (t1 * s) \<and> \<bar>2 * t\<bar> < 2 powi 1024 \<longrightarrow>
        scrollDuration r bw (Fin d) (Fin (2 * s)) = Fin (2 * t))
   \<and> calculateAndSetWidth parseFloat_decimal abc_props abc_layout =
        Inr [SetProperty ''--total-width'' (Px (Fin 1200)),
             SetProperty ''--scroll-duration''
               (Seconds (Fin (2026619832316723 / 281474976710656))),
             RequestAnimationFrame_classList_add ''infinite-slider-ready'']"
proof -
  have a: "calculateAndSetWidth pf p lay =
        Inr [SetProperty ''--total-width'' (Px (Math_round w)),
             SetProperty ''--scroll-duration''
               (Seconds (js_mul (js_mul (js_div (Math_round w) (baseWidth p)) (duration p)) (speed p))),
             RequestAnimationFrame_classList_add ''infinite-slider-ready'']"
    if "children lay \<noteq> []" "halfTotalWidth pf p lay = Inr w" "js_gt w (Fin 0)"
    using that
    by (simp add: calculateAndSetWidth_def and_then_def publish_def Let_def scrollDuration_def)
  have e: "calculateAndSetWidth parseFloat_decimal abc_props abc_layout =
        Inr [SetProperty ''--total-width'' (Px (Fin 1200)),
             SetProperty ''--scroll-duration''
               (Seconds (Fin (2026619832316723 / 281474976710656))),
             RequestAnimationFrame_classList_add ''infinite-slider-ready'']"
    by code_simp
  show ?thesis
    using a e scrollDuration_double_duration[of r bw a d t1 s t]
      scrollDuration_double_speed[of r bw d t1 s t]
    by blast
qed

text \<open>
  The scenario of the three text items: every hypothesis holds there, and a duration
  of 60, or a speed of 2, publishes twice the value.
\<close>

theorem cycle_duration_formula_witness:
  "children abc_layout \<noteq> []
   \<and> halfTotalWidth parseFloat_decimal abc_props abc_layout = Inr (Fin 1200)
   \<and> js_gt (Fin 1200) (Fin 0)
   \<and> js_div (Fin 1200) (Fin 5000) = Fin (1080863910568919 / 4503599627370496)
   \<and> js_mul (Fin (1080863910568919 / 4503599627370496)) (Fin 30)
       = Fin (2026619832316723 / 281474976710656)
   \<and> scrollDuration (Fin 1200) (Fin 5000) (Fin 30) (Fin 1) = Fin (2026619832316723 / 281474976710656)
   \<and> normal_or_zero (1080863910568919 / 4503599627370496 * 30)
   \<and> normal_or_zero (2026619832316723 / 281474976710656 * 1)
   \<and> \<bar>2 * (2026619832316723 / 281474976710656 :: rat)\<bar> < 2 powi 1024
   \<and> scrollDuration (Fin 1200) (Fin 5000) (Fin (2 * 30)) (Fin 1)
       = Fin (2 * (2026619832316723 / 281474976710656))
   \<and> scrollDuration (Fin 1200) (Fin 5000) (Fin 30) (Fin (2 * 1))
       = Fin (2 * (2026619832316723 / 281474976710656))"
proof -
  have h1: "children abc_layout \<noteq> []" by code_simp
  have h2: "halfTotalWidth parseFloat_decimal abc_props abc_layout = Inr (Fin 1200)" by code_simp
  have h3: "js_gt (Fin 1200) (Fin 0)" by code_simp
  have h4: "js_div (Fin 1200) (Fin 5000) = Fin (1080863910568919 / 4503599627370496)" by code_simp
  have h5: "js_mul (Fin (1080863910568919 / 4503599627370496)) (Fin 30)
       = Fin (2026619832316723 / 281474976710656)" by code_simp
  have h6: "scrollDuration (Fin 1200) (Fin 5000) (Fin 30) (Fin 1)
       = Fin (2026619832316723 / 281474976710656)" by code_simp
  have h7: "normal_or_zero (1080863910568919 / 4503599627370496 * 30)"
    by (rule normal_or_zeroI) simp
  have h8: "normal_or_zero (2026619832316723 / 281474976710656 * 1)"
    by (rule normal_or_zeroI) simp
  have h9: "\<bar>2 * (2026619832316723 / 281474976710656 :: rat)\<bar> < 2 powi 1024"
    by (rule below_overflowI) simp
  have h10: "js_mul (js_div (Fin 1200) (Fin 5000)) (Fin 30)
       = Fin (2026619832316723 / 281474976710656)" by code_simp
  from cycle_duration_formula[of abc_layout parseFloat_decimal abc_props "Fin 1200"
      "Fin 1200" "Fin 5000" "1080863910568919 / 4503599627370496" 30
      "2026619832316723 / 281474976710656" 1 "2026619832316723 / 281474976710656"]
  show ?thesis
    using h1 h2 h3 h4 h5 h6 h7 h8 h9 h10 by blast
qed

text \<open>
  Claim C3 as stated gives 7.2 seconds for the scenario, and the duration of the
  measured distance. The published value of the scenario is below 7.2 and is not the
  double nearest to 7.2. With two items 20 wide and a gap of 24.5 the second copy starts
  at 89, the manual calculation gives 64.5, 65 is published, and the duration is that of
  65, not that of 64.5.
\<close>

theorem scenario_duration_is_not_7_2:
  "calculateAndSetWidth parseFloat_decimal abc_props abc_layout =
     Inr [SetProperty ''--total-width'' (Px (Fin 1200)),
          SetProperty ''--scroll-duration''
            (Seconds (Fin (2026619832316723 / 281474976710656))),
          RequestAnimationFrame_classList_add ''infinite-slider-ready'']
   \<and> Fin (2026619832316723 / 281474976710656) \<noteq> round_to_double (36 / 5)
   \<and> (2026619832316723 / 281474976710656 :: rat) < 36 / 5
   \<and> halfTotalWidth parseFloat_decimal narrow_props narrow_layout = Inr (Fin (129 / 2))
   \<and> calculateAndSetWidth parseFloat_decimal narrow_props narrow_layout =
       Inr [SetProperty ''--total-width'' (Px (Fin 65)),
            SetProperty ''--scroll-duration''
              (Seconds (scrollDuration (Fin 65) (Fin 5000) (Fin 30) (Fin 1))),
            RequestAnimationFrame_classList_add ''infinite-slider-ready'']
   \<and> scrollDuration (Fin 65) (Fin 5000) (Fin 30) (Fin 1)
       \<noteq> scrollDuration (Fin (129 / 2)) (Fin 5000) (Fin 30) (Fin 1)"
  by code_simp

text \<open>
  The conditions on the products are needed. With a distance of 1, a base width of
  \<open>2^1023\<close>, a speed of 1 and the duration \<open>1 + 2^-52\<close> the product of quotient and
  duration is below \<open>2^-1022\<close> and loses its last bit, so the published duration is
  \<open>2^-1023\<close>; with twice that duration the product keeps the bit, and the published
  duration is more than twice the first one.
\<close>

lemma round_to_double_at:
  assumes "r \<noteq> 0" "2 powi e \<le> \<bar>r\<bar>" "\<bar>r\<bar> < 2 powi (e + 1)"
  shows "round_to_double r =
     (let q = 2 powi (max e (- 1022) - 52); v = of_int (round_half_even (r / q)) * q
      in if 2 powi 1024 \<le> \<bar>v\<bar> then (if 0 < r then PInf else NInf) else Fin v)"
  using expo_eqI[OF assms] assms(1) by (simp add: round_to_double_def)

lemma round_half_even_of_int: "round_half_even (of_int n) = n"
proof -
  have "\<lfloor>(of_int n :: rat) + 1 / 2\<rfloor> = n" by (simp add: floor_unique)
  moreover have "(of_int n :: rat) \<noteq> of_int n + 1 / 2" by simp
  ultimately show ?thesis by (simp add: round_half_even_def Let_def)
qed

lemma round_half_even_tie: "even n \<Longrightarrow> round_half_even (of_int n + 1 / 2) = n"
proof -
  assume e: "even n"
  have f: "\<lfloor>(of_int n :: rat) + 1 / 2 + 1 / 2\<rfloor> = n + 1"
    by (simp add: floor_unique)
  have "(of_int (n + 1) :: rat) = of_int n + 1 / 2 + 1 / 2" by simp
  then show ?thesis using e f by (simp add: round_half_even_def Let_def)
qed

lemma round_to_double_exact:
  assumes e: "2 powi e \<le> r" "r < 2 powi (e + 1)" "e < 1024"
    and n: "r = of_int n * 2 powi (max e (- 1022) - 52)"
  shows "round_to_double r = Fin r"
proof -
  have pos: "0 < r" using e(1) powi_pos[of e] by (rule less_le_trans[rotated])
  then have r0: "r \<noteq> 0" and ab: "\<bar>r\<bar> = r" by simp_all
  define q where "q = (2::rat) powi (max e (- 1022) - 52)"
  have q0: "q \<noteq> 0" using powi_pos[of "max e (- 1022) - 52"] by (simp add: q_def)
  have d: "r / q = of_int n" using n q0 by (simp add: q_def)
  have "(2::rat) powi (e + 1) \<le> 2 powi 1024"
    using e(3) by (rule_tac power_int_increasing) simp_all
  then have no: "\<not> 2 powi 1024 \<le> \<bar>r\<bar>" using e(2) ab by simp
  have "round_to_double r =
     (let v = of_int (round_half_even (r / q)) * q
      in if 2 powi 1024 \<le> \<bar>v\<bar> then (if 0 < r then PInf else NInf) else Fin v)"
    using round_to_double_at[OF r0, of e] e ab by (simp add: q_def Let_def)
  also have "of_int (round_half_even (r / q)) * q = r"
    using n by (simp add: d round_half_even_of_int q_def)
  finally show ?thesis using no by (simp add: Let_def)
qed

lemma round_2_1023: "round_to_double (1 / 2 ^ 1023) = Fin (1 / 2 ^ 1023)"
  by (rule round_to_double_exact[where e = "- 1023" and n = "2 ^ 51"])
     (simp_all add: power_int_minus_divide)

lemma round_2_1022_plus:
  "round_to_double (1 / 2 ^ 1022 + 1 / 2 ^ 1074) = Fin (1 / 2 ^ 1022 + 1 / 2 ^ 1074)"
  by (rule round_to_double_exact[where e = "- 1022" and n = "2 ^ 52 + 1"])
     (simp_all add: power_int_minus_divide)

lemma round_2_1023_tie: "round_to_double (1 / 2 ^ 1023 * (1 + 1 / 2 ^ 52)) = Fin (1 / 2 ^ 1023)"
proof -
  define r :: rat where "r = 1 / 2 ^ 1023 * (1 + 1 / 2 ^ 52)"
  have r0: "r \<noteq> 0" by (simp add: r_def)
  have lo: "2 powi (- 1023) \<le> \<bar>r\<bar>" by (simp add: r_def power_int_minus_divide)
  have hi: "\<bar>r\<bar> < 2 powi (- 1023 + 1)" by (simp add: r_def power_int_minus_divide)
  have q: "r / 2 powi (max (- 1023) (- 1022) - 52) = of_int (2 ^ 51) + 1 / 2"
    by (simp add: r_def power_int_minus_divide)
  have h: "round_half_even (r / 2 powi (max (- 1023) (- 1022) - 52)) = 2 ^ 51"
    unfolding q by (rule round_half_even_tie) simp
  have v: "of_int (2 ^ 51) * (2::rat) powi (max (- 1023) (- 1022) - 52) = 1 / 2 ^ 1023"
    by (simp add: power_int_minus_divide)
  have no: "\<not> (2::rat) powi 1024 \<le> \<bar>1 / 2 ^ 1023\<bar>" by simp
  show ?thesis
    unfolding r_def[symmetric] round_to_double_at[OF r0 lo hi] Let_def h v
    using no r0 by simp
qed

lemma doubling_below_the_normal_range:
  "scrollDuration (Fin 1) (Fin (2 ^ 1023)) (Fin (1 + 1 / 2 ^ 52)) (Fin 1) = Fin (1 / 2 ^ 1023)
   \<and> scrollDuration (Fin 1) (Fin (2 ^ 1023)) (Fin (2 * (1 + 1 / 2 ^ 52))) (Fin 1)
       = Fin (2 * (1 / 2 ^ 1023) + 1 / 2 ^ 1074)
   \<and> \<not> normal_or_zero (1 / 2 ^ 1023 * (1 + 1 / 2 ^ 52))"
proof -
  have a: "round_to_double (1 / 2 ^ 1023 * (2 * (1 + 1 / 2 ^ 52)))
             = Fin (1 / 2 ^ 1022 + 1 / 2 ^ 1074)"
    using round_2_1022_plus by simp
  have b: "\<not> normal_or_zero (1 / 2 ^ 1023 * (1 + 1 / 2 ^ 52))"
    by (simp add: normal_or_zero_def power_int_minus_divide)
  show ?thesis
    using round_2_1023 round_2_1023_tie round_2_1022_plus a b
    by (simp add: scrollDuration_def)
qed

section \<open>Measurement and publication\<close>

lemma measured_width_total:
  assumes "children lay \<noteq> []"
  shows "\<exists>w. measured_width pf p lay = Inr w"
  using assms
  by (auto simp add: measured_width_def Let_def and_then_def element_at_def split: sum.splits)

lemma halfTotalWidth_total:
  assumes "children lay \<noteq> []"
  shows "\<exists>w. halfTotalWidth pf p lay = Inr w"
  using measured_width_total[OF assms, of pf p]
  by (auto simp add: halfTotalWidth_def and_then_def)

text \<open>
  Claim C4. A run of \<open>calculateAndSetWidth\<close> never throws. It touches the track exactly
  when the track has children and the distance after the fallbacks is greater than 0,
  and then it sets the rounded distance and the duration and requests the frame that
  marks the track ready, all three; otherwise it does nothing at all.
\<close>

theorem parameters_published_iff_positive:
  "\<exists>ops. calculateAndSetWidth pf p lay = Inr ops
     \<and> (ops \<noteq> [] \<longleftrightarrow>
          children lay \<noteq> [] \<and> (\<exists>w. halfTotalWidth pf p lay = Inr w \<and> js_gt w (Fin 0)))
     \<and> (ops = [] \<or>
          (\<exists>w. halfTotalWidth pf p lay = Inr w
             \<and> ops = [SetProperty ''--total-width'' (Px (Math_round w)),
                      SetProperty ''--scroll-duration''
                        (Seconds (scrollDuration (Math_round w) (baseWidth p) (duration p) (speed p))),
                      RequestAnimationFrame_classList_add ''infinite-slider-ready'']))"
proof (cases "children lay = []")
  case True
  then show ?thesis by (simp add: calculateAndSetWidth_def)
next
  case False
  then obtain w where w: "halfTotalWidth pf p lay = Inr w"
    using halfTotalWidth_total by blast
  show ?thesis
    using False w by (simp add: calculateAndSetWidth_def and_then_def publish_def Let_def)
qed

text \<open>
  Both sides of the test. The scenario of the three text items gives a distance of 1200
  and the three operations. With both copies present and nothing laid out yet, and a
  gap of 0, the distance is 0 and the run does nothing.
\<close>

theorem parameters_published_iff_positive_witness:
  "halfTotalWidth parseFloat_decimal abc_props abc_layout = Inr (Fin 1200)
   \<and> js_gt (Fin 1200) (Fin 0)
   \<and> calculateAndSetWidth parseFloat_decimal abc_props abc_layout =
       Inr [SetProperty ''--total-width'' (Px (Fin 1200)),
            SetProperty ''--scroll-duration''
              (Seconds (scrollDuration (Fin 1200) (Fin 5000) (Fin 30) (Fin 1))),
            RequestAnimationFrame_classList_add ''infinite-slider-ready'']
   \<and> halfTotalWidth parseFloat_decimal abc_props unlaid_layout = Inr (Fin 0)
   \<and> \<not> js_gt (Fin 0) (Fin 0)
   \<and> calculateAndSetWidth parseFloat_decimal abc_props unlaid_layout = Inr []"
proof -
  have h: "halfTotalWidth parseFloat_decimal abc_props abc_layout = Inr (Fin 1200)"
    "js_gt (Fin 1200) (Fin 0)"
    "halfTotalWidth parseFloat_decimal abc_props unlaid_layout = Inr (Fin 0)"
    "\<not> js_gt (Fin 0) (Fin 0)"
    "children abc_layout \<noteq> []" "children unlaid_layout \<noteq> []"
    "baseWidth abc_props = Fin 5000" "duration abc_props = Fin 30" "speed abc_props = Fin 1"
    "Math_round (Fin 1200) = Fin 1200"
    by code_simp+
  from parameters_published_iff_positive[of parseFloat_decimal abc_props abc_layout]
    parameters_published_iff_positive[of parseFloat_decimal abc_props unlaid_layout] h
  show ?thesis by auto
qed

text \<open>
  Claim C5, as the code has it. The manual calculation replaces the measured value
  exactly when that value is 0, is NaN, or is less than 100; the last case takes every
  negative value and \<open>-\<infinity>\<close>. \<open>+\<infinity>\<close> is kept as measured.
\<close>

theorem manual_calculation_runs_iff:
  "(needs_manual_calculation w \<longleftrightarrow> w = Fin 0 \<or> w = NaN \<or> js_lt w (Fin 100))
   \<and> needs_manual_calculation NInf \<and> \<not> needs_manual_calculation PInf
   \<and> halfTotalWidth pf p lay =
       and_then (measured_width pf p lay) (\<lambda>m.
         Inr (if m = Fin 0 \<or> m = NaN \<or> js_lt m (Fin 100) then manual_calculation pf p lay else m))"
proof -
  have a: "\<And>m. needs_manual_calculation m \<longleftrightarrow> m = Fin 0 \<or> m = NaN \<or> js_lt m (Fin 100)"
    by (auto simp add: needs_manual_calculation_def js_strict_eq_def js_truthy_def)
  have b: "needs_manual_calculation NInf" "\<not> needs_manual_calculation PInf"
    by (simp_all add: a)
  have c: "halfTotalWidth pf p lay =
       and_then (measured_width pf p lay) (\<lambda>m.
         Inr (if m = Fin 0 \<or> m = NaN \<or> js_lt m (Fin 100) then manual_calculation pf p lay else m))"
    unfolding halfTotalWidth_def a ..
  show ?thesis using a b c by blast
qed

text \<open>
  A measured 1200 is kept. With two items 20 wide and a gap of 24.5 the second copy
  starts at 89, which is less than 100, and the manual calculation replaces it by 64.5.
\<close>

theorem manual_calculation_runs_iff_witness:
  "measured_width parseFloat_decimal abc_props abc_layout = Inr (Fin 1200)
   \<and> \<not> needs_manual_calculation (Fin 1200)
   \<and> halfTotalWidth parseFloat_decimal abc_props abc_layout = Inr (Fin 1200)
   \<and> measured_width parseFloat_decimal narrow_props narrow_layout = Inr (Fin 89)
   \<and> needs_manual_calculation (Fin 89)
   \<and> halfTotalWidth parseFloat_decimal narrow_props narrow_layout
       = Inr (manual_calculation parseFloat_decimal narrow_props narrow_layout)
   \<and> manual_calculation parseFloat_decimal narrow_props narrow_layout = Fin (129 / 2)"
proof -
  have h: "measured_width parseFloat_decimal abc_props abc_layout = Inr (Fin 1200)"
    "measured_width parseFloat_decimal narrow_props narrow_layout = Inr (Fin 89)"
    "manual_calculation parseFloat_decimal narrow_props narrow_layout = Fin (129 / 2)"
    "\<not> js_lt (Fin 1200) (Fin 100)" "js_lt (Fin 89) (Fin 100)"
    by code_simp+
  from manual_calculation_runs_iff[of "Fin 1200" parseFloat_decimal abc_props abc_layout]
    manual_calculation_runs_iff[of "Fin 89" parseFloat_decimal narrow_props narrow_layout] h
  show ?thesis by (simp add: and_then_def)
qed

text \<open>
  Claim C5 as stated sends every non-finite value, \<open>+\<infinity>\<close> included, to the manual
  calculation. One item, one child, no computed gap and \<^verbatim>\<open>gap={Infinity}\<close>: the second
  measurement gives \<open>+\<infinity>\<close>, which is not finite and is kept, although the manual
  calculation would have given NaN.
\<close>

theorem positive_infinity_skips_manual_calculation:
  "measured_width parseFloat_decimal infinite_gap_props single_layout = Inr PInf
   \<and> \<not> is_finite PInf
   \<and> \<not> needs_manual_calculation PInf
   \<and> halfTotalWidth parseFloat_decimal infinite_gap_props single_layout = Inr PInf
   \<and> manual_calculation parseFloat_decimal infinite_gap_props single_layout = NaN"
  by code_simp

section \<open>Polling for children\<close>

lemma setupAnimation_Some_D:
  assumes "setupAnimation pf p doc n = Some r"
  shows "n \<le> fst r \<and> children (doc (fst r)) \<noteq> []
         \<and> (\<forall>k. n \<le> k \<and> k < fst r \<longrightarrow> children (doc k) = [])
         \<and> snd r = calculateAndSetWidth pf p (doc (fst r + 1))"
  using assms
proof (induct rule: setupAnimation.raw_induct[rotated, consumes 1])
  case (1 f pf p doc n r)
  show ?case
  proof (cases "children (doc n) = []")
    case True
    then have "f pf p doc (n + 1) = Some r" using 1(2) by simp
    from 1(1)[OF this] have ih: "n + 1 \<le> fst r" "children (doc (fst r)) \<noteq> []"
      "\<forall>k. n + 1 \<le> k \<and> k < fst r \<longrightarrow> children (doc k) = []"
      "snd r = calculateAndSetWidth pf p (doc (fst r + 1))" by simp_all
    have "children (doc k) = []" if "n \<le> k" "k < fst r" for k
    proof (cases "k = n")
      case True
      then show ?thesis using \<open>children (doc n) = []\<close> by simp
    next
      case False
      then have "n + 1 \<le> k" using that by simp
      then show ?thesis using ih(3) that by blast
    qed
    then show ?thesis using ih by auto
  next
    case False
    then show ?thesis using 1(2) by auto
  qed
qed

lemma setupAnimation_found:
  assumes "children (doc m) \<noteq> []" and "n \<le> m"
  shows "\<exists>r. setupAnimation pf p doc n = Some r"
  using assms
proof (induction "m - n" arbitrary: n)
  case 0
  then have "n = m" by simp
  then show ?case using 0 by (subst setupAnimation.simps) simp
next
  case (Suc d)
  show ?case
  proof (cases "children (doc n) = []")
    case True
    have "d = m - (n + 1)" using Suc(2) by simp
    moreover have "n + 1 \<le> m" using Suc(2) by simp
    ultimately obtain r where "setupAnimation pf p doc (n + 1) = Some r"
      using Suc(1)[of "n + 1"] Suc(3) by blast
    then show ?thesis using True by (subst setupAnimation.simps) simp
  next
    case False
    then show ?thesis by (subst setupAnimation.simps) simp
  qed
qed

text \<open>
  Claim C6, as the code has it. The polling has no bound of its own. Started at the
  \<open>n\<close>-th callback, it ends at the first callback from \<open>n\<close> on that finds a child, after
  one retry for each callback before it, and hands over to the measurement; when no
  callback from \<open>n\<close> on finds a child it never ends.
\<close>

theorem polling_ends_iff_children_appear:
  "((\<exists>m. n \<le> m \<and> children (doc m) \<noteq> []) \<longrightarrow>
      (\<exists>m. setupAnimation pf p doc n = Some (m, calculateAndSetWidth pf p (doc (m + 1)))
           \<and> n \<le> m \<and> children (doc m) \<noteq> []
           \<and> (\<forall>k. n \<le> k \<and> k < m \<longrightarrow> children (doc k) = [])))
   \<and> ((\<forall>m. n \<le> m \<longrightarrow> children (doc m) = []) \<longrightarrow> setupAnimation pf p doc n = None)"
proof (intro conjI impI)
  assume "\<exists>m. n \<le> m \<and> children (doc m) \<noteq> []"
  then obtain r where r: "setupAnimation pf p doc n = Some r"
    using setupAnimation_found by blast
  from setupAnimation_Some_D[OF r] r
  show "\<exists>m. setupAnimation pf p doc n = Some (m, calculateAndSetWidth pf p (doc (m + 1)))
           \<and> n \<le> m \<and> children (doc m) \<noteq> []
           \<and> (\<forall>k. n \<le> k \<and> k < m \<longrightarrow> children (doc k) = [])"
    by (cases r) auto
next
  assume a: "\<forall>m. n \<le> m \<longrightarrow> children (doc m) = []"
  show "setupAnimation pf p doc n = None"
  proof (cases "setupAnimation pf p doc n")
    case None
    then show ?thesis .
  next
    case (Some r)
    from setupAnimation_Some_D[OF Some] a show ?thesis by blast
  qed
qed

text \<open>
  A track that gets its children at the third callback is polled twice and measured;
  a track that stays empty from the sixth callback on is polled without end.
\<close>

theorem polling_ends_iff_children_appear_witness:
  "(\<exists>m. 0 \<le> m \<and> children (children_after 2 m) \<noteq> [])
   \<and> setupAnimation parseFloat_decimal abc_props (children_after 2) 0
       = Some (2, calculateAndSetWidth parseFloat_decimal abc_props abc_layout)
   \<and> children (no_children 5) = []
   \<and> setupAnimation parseFloat_decimal abc_props no_children 5 = None"
proof -
  have c: "children abc_layout \<noteq> []" by (simp add: abc_layout_def)
  have h1: "\<exists>m. 0 \<le> m \<and> children (children_after 2 m) \<noteq> []"
    using c by (auto simp add: children_after_def intro!: exI[of _ 2])
  have h2: "\<forall>m. 5 \<le> m \<longrightarrow> children (no_children m) = []"
    by (simp add: no_children_def)
  from polling_ends_iff_children_appear[of 0 "children_after 2" parseFloat_decimal abc_props] h1
  obtain m where m: "setupAnimation parseFloat_decimal abc_props (children_after 2) 0
        = Some (m, calculateAndSetWidth parseFloat_decimal abc_props (children_after 2 (m + 1)))"
    "children (children_after 2 m) \<noteq> []"
    "\<forall>k. 0 \<le> k \<and> k < m \<longrightarrow> children (children_after 2 k) = []"
    by blast
  have "2 \<le> m" using m(2) by (auto simp add: children_after_def split: if_splits)
  moreover have "\<not> 2 < m" using m(3) c by (auto simp add: children_after_def)
  ultimately have "m = 2" by simp
  then have "setupAnimation parseFloat_decimal abc_props (children_after 2) 0
       = Some (2, calculateAndSetWidth parseFloat_decimal abc_props abc_layout)"
    using m(1) by (simp add: children_after_def)
  moreover have "setupAnimation parseFloat_decimal abc_props no_children 5 = None"
    using polling_ends_iff_children_appear[of 5 no_children parseFloat_decimal abc_props] h2
    by blast
  ultimately show ?thesis using h1 h2 by blast
qed

text \<open>
  Claim C6 as stated bounds the retries for every document. An empty item list is
  accepted and renders no child; on a track without children the polling never ends.
\<close>

theorem empty_track_is_polled_forever:
  "validate_effect [] = ([], Inr ())
   \<and> render_buffer (default_props []) True = []
   \<and> setupAnimation parseFloat_decimal (default_props []) no_children 0 = None"
proof -
  have "setupAnimation parseFloat_decimal (default_props []) no_children 0 = None"
  proof (cases "setupAnimation parseFloat_decimal (default_props []) no_children 0")
    case None
    then show ?thesis .
  next
    case (Some r)
    from setupAnimation_Some_D[OF Some] show ?thesis by (simp add: no_children_def)
  qed
  moreover have "render_buffer (default_props []) True = []"
    by (simp add: render_buffer_def render_copy_def default_props_def enumerate_eq_zip)
  moreover have "validate_effect [] = ([], Inr ())"
    by (simp add: validate_effect_def invalidItems_def)
  ultimately show ?thesis by simp
qed

section \<open>Asset readiness\<close>

lemma set_array_from_set: "set (array_from_set xs) = set xs"
  by (induction xs rule: array_from_set.induct) auto

lemma distinct_array_from_set: "distinct (array_from_set xs)"
  by (induction xs rule: array_from_set.induct) (auto simp add: set_array_from_set)

lemma set_imageUrls:
  "set (imageUrls its) = {u. u \<noteq> [] \<and> (\<exists>item \<in> set its. logo item = Some u)}"
proof -
  have "set (imageUrls its) = the ` {x \<in> logo ` set its. str_truthy x}"
    by (simp add: imageUrls_def set_array_from_set)
  also have "\<dots> = {u. u \<noteq> [] \<and> (\<exists>item \<in> set its. logo item = Some u)}"
  proof (intro set_eqI iffI)
    fix u
    assume "u \<in> the ` {x \<in> logo ` set its. str_truthy x}"
    then obtain x where x: "x \<in> logo ` set its" "str_truthy x" "u = the x" by auto
    then show "u \<in> {u. u \<noteq> [] \<and> (\<exists>item \<in> set its. logo item = Some u)}"
      by (cases x) (auto simp add: str_truthy_def)
  next
    fix u
    assume "u \<in> {u. u \<noteq> [] \<and> (\<exists>item \<in> set its. logo item = Some u)}"
    then obtain item where i: "item \<in> set its" "logo item = Some u" "u \<noteq> []" by auto
    then have "Some u \<in> {x \<in> logo ` set its. str_truthy x}"
      by (auto simp add: str_truthy_def image_iff intro: bexI[of _ item])
    then have "the (Some u) \<in> the ` {x \<in> logo ` set its. str_truthy x}" by (rule imageI)
    then show "u \<in> the ` {x \<in> logo ` set its. str_truthy x}" by simp
  qed
  finally show ?thesis .
qed

text \<open>No function of the component sets \<open>imagesLoaded\<close> back to false.\<close>

lemma checkAllLoaded_keeps_ready:
  "imagesLoaded (state rt) \<Longrightarrow> imagesLoaded (state (checkAllLoaded k rt))"
  by (simp add: checkAllLoaded_def Let_def)

lemma preload_effect_keeps_ready:
  "imagesLoaded (state rt) \<Longrightarrow> imagesLoaded (state (snd (preload_effect w sl its rt)))"
  by (simp add: preload_effect_def)

lemma lazy_load_effect_keeps_ready:
  "imagesLoaded (state rt) \<Longrightarrow> imagesLoaded (state (snd (lazy_load_effect w found p rt)))"
  by (simp add: lazy_load_effect_def)

text \<open>
  For the first sequence after the gate has opened the counter does what claim C7
  says: without a reference the effect sets \<open>imagesLoaded\<close> at once, and otherwise it is
  set when as many images have settled as there are distinct references.
\<close>

lemma first_sequence_counts:
  assumes "closures rt = []" and "\<not> imagesLoaded (state rt)" and "imageUrls its \<noteq> []"
  shows "closures ((checkAllLoaded 0 ^^ j) (snd (preload_effect True True its rt)))
           = [\<lparr>loadedCount = j, totalImages = length (imageUrls its)\<rparr>]
         \<and> (imagesLoaded (state ((checkAllLoaded 0 ^^ j) (snd (preload_effect True True its rt))))
              \<longleftrightarrow> length (imageUrls its) \<le> j)"
proof (induction j)
  case 0
  then show ?case using assms by (simp add: preload_effect_def)
next
  case (Suc j)
  then show ?case by (auto simp add: checkAllLoaded_def Let_def)
qed

lemma first_sequence_without_images:
  "imageUrls its = [] \<Longrightarrow> imagesLoaded (state (snd (preload_effect True True its rt)))"
  by (simp add: preload_effect_def)

text \<open>
  Claim C7 fails for a sequence that follows another one. The first sequence is one
  logo, and its image has settled. The items change to another logo: the effect runs
  again and requests the new image, its counter is at 0 of 1, and \<open>imagesLoaded\<close> is
  still true from the first sequence.
\<close>

theorem stale_readiness_for_a_new_sequence:
  "imagesLoaded (state first_sequence_loaded)
   \<and> imageUrls [logo_item ''b.png''] = [''b.png'']
   \<and> preload_effect True True [logo_item ''b.png''] first_sequence_loaded =
       ([Create_img 1 ''b.png''],
        \<lparr>state = \<lparr>isVisible = True, shouldLoad = True, imagesLoaded = True\<rparr>,
         closures = [\<lparr>loadedCount = 1, totalImages = 1\<rparr>, \<lparr>loadedCount = 0, totalImages = 1\<rparr>]\<rparr>)"
  by code_simp

section \<open>The gap\<close>

text \<open>
  Claim C8. The gap of both fallback measurements is \<open>gapPx\<close>: the computed gap parsed
  when the computed style has one, else the \<open>gap\<close> property when it is a number, else
  48. The measurement over one copy adds it once, the manual calculation adds it once
  for each item but one. Without a computed gap and with \<^verbatim>\<open>gap={24}\<close> it is 24.
\<close>

theorem effective_gap_fallback_chain:
  "(gv \<noteq> [] \<longrightarrow> gapPx pf gv g = pf gv)
   \<and> gapPx pf [] (GapNumber n) = n
   \<and> gapPx pf [] (GapString s) = Fin 48
   \<and> gapPx pf [] (GapNumber (Fin 24)) = Fin 24
   \<and> (length (items p) \<le> length (children lay) \<and> length (children lay) < length (items p) * 2 \<longrightarrow>
        measured_width pf p lay =
          Inr (js_add
                 (js_sub
                    (js_add (num_of_int (offsetLeft (children lay ! (length (items p) - 1))))
                            (num_of_int (offsetWidth (children lay ! (length (items p) - 1)))))
                    (num_of_int (offsetLeft (children lay ! 0))))
                 (gapPx pf (computed_gap lay) (gap p))))
   \<and> manual_calculation pf p lay =
        js_add
          (foldl (\<lambda>w el. js_add w (num_of_int (offsetWidth el))) (Fin 0)
             (take (length (items p)) (children lay)))
          (js_mul (gapPx pf (computed_gap lay) (gap p)) (num_of_int (int (length (items p)) - 1)))"
proof -
  have sec: "measured_width pf p lay =
          Inr (js_add
                 (js_sub
                    (js_add (num_of_int (offsetLeft (children lay ! (length (items p) - 1))))
                            (num_of_int (offsetWidth (children lay ! (length (items p) - 1)))))
                    (num_of_int (offsetLeft (children lay ! 0))))
                 (gapPx pf (computed_gap lay) (gap p)))"
    if a: "length (items p) \<le> length (children lay)"
      and b: "length (children lay) < length (items p) * 2"
  proof -
    have n: "0 < length (items p)" using a b by (cases "items p") simp_all
    then have l: "0 < length (children lay)" using a by (cases "children lay") simp_all
    have "nat (int (length (items p)) - 1) = length (items p) - 1" by simp
    then show ?thesis
      using a b n l
      by (simp add: measured_width_def Let_def and_then_def element_at_def not_le)
  qed
  show ?thesis
    using sec by (simp add: gapPx_def manual_calculation_def Let_def)
qed

text \<open>
  Three items and \<^verbatim>\<open>gap={24}\<close>, no computed gap. One copy laid out: 1152 from the first
  left edge to the last right edge, and 24. Two boxes only: 704 of widths, and twice 24.
  With the computed gap \<^verbatim>\<open>48px\<close> the property is not looked at.
\<close>

theorem effective_gap_fallback_chain_witness:
  "length (items gap24_props) \<le> length (children one_copy_layout)
   \<and> length (children one_copy_layout) < length (items gap24_props) * 2
   \<and> gapPx parseFloat_decimal (computed_gap one_copy_layout) (gap gap24_props) = Fin 24
   \<and> measured_width parseFloat_decimal gap24_props one_copy_layout = Inr (Fin 1176)
   \<and> manual_calculation parseFloat_decimal gap24_props two_boxes_layout = Fin 752
   \<and> ''48px'' \<noteq> []
   \<and> gapPx parseFloat_decimal ''48px'' (GapNumber (Fin 24)) = Fin 48"
proof -
  have h: "length (items gap24_props) \<le> length (children one_copy_layout)"
    "length (children one_copy_layout) < length (items gap24_props) * 2"
    "computed_gap one_copy_layout = []" "gap gap24_props = GapNumber (Fin 24)"
    "measured_width parseFloat_decimal gap24_props one_copy_layout = Inr (Fin 1176)"
    "manual_calculation parseFloat_decimal gap24_props two_boxes_layout = Fin 752"
    "parseFloat_decimal ''48px'' = Fin 48"
    by code_simp+
  from effective_gap_fallback_chain[of "''48px''" parseFloat_decimal "GapNumber (Fin 24)"
      "Fin 24" "[]" gap24_props one_copy_layout] h
  show ?thesis by simp
qed

section \<open>The gate without a window\<close>

text \<open>
  Claim C9, as the code has it. Without a window the gate effect creates no observer,
  whatever the configuration; it opens the gate when \<open>lazyLoad\<close> is off, and leaves the
  state as it is when \<open>lazyLoad\<close> is on. From the initial state \<open>shouldLoad\<close> is true
  afterwards exactly when \<open>lazyLoad\<close> is off.
\<close>

theorem gate_without_window:
  "lazy_load_effect False found p rt =
     ([], if lazyLoad p then rt else rt\<lparr>state := (state rt)\<lparr>isVisible := True, shouldLoad := True\<rparr>\<rparr>)
   \<and> (shouldLoad (state (snd (lazy_load_effect False found p initial_runtime))) \<longleftrightarrow> \<not> lazyLoad p)"
  by (simp add: lazy_load_effect_def initial_runtime_def)

text \<open>With \<open>lazyLoad\<close> off the gate opens, observer or not.\<close>

theorem gate_without_window_witness:
  "\<not> lazyLoad eager_props
   \<and> lazy_load_effect False True eager_props initial_runtime =
       ([], \<lparr>state = \<lparr>isVisible = True, shouldLoad = True, imagesLoaded = False\<rparr>, closures = []\<rparr>)"
proof -
  have h: "\<not> lazyLoad eager_props" by (simp add: eager_props_def default_props_def)
  from gate_without_window[of True eager_props initial_runtime] h
  show ?thesis by (simp add: initial_runtime_def)
qed

text \<open>
  Claim C9 as stated opens the gate without a window even when lazy gating is on. With
  the default configuration, where \<open>lazyLoad\<close> is on, the effect returns at the test for
  the window and \<open>shouldLoad\<close> stays false.
\<close>

theorem lazy_gate_without_window_stays_closed:
  "lazyLoad (default_props [])
   \<and> lazy_load_effect False True (default_props []) initial_runtime = ([], initial_runtime)
   \<and> shouldLoad (state (snd (lazy_load_effect False True (default_props []) initial_runtime)))
       = False"
  by (simp add: lazy_load_effect_def initial_runtime_def default_props_def)

section \<open>A base width of zero\<close>

text \<open>
  Claim C10. With \<open>baseWidth = 0\<close> and a distance greater than 0 the run publishes the
  rounded distance together with a duration that is not finite: the quotient by zero is
  an infinity or NaN, and so is every product made from it.
\<close>

theorem zero_baseWidth_publishes_non_finite_duration:
  assumes "children lay \<noteq> []" and "halfTotalWidth pf p lay = Inr w" and "js_gt w (Fin 0)"
    and "baseWidth p = Fin 0"
  shows "\<exists>t. calculateAndSetWidth pf p lay =
               Inr [SetProperty ''--total-width'' (Px (Math_round w)),
                    SetProperty ''--scroll-duration'' (Seconds t),
                    RequestAnimationFrame_classList_add ''infinite-slider-ready'']
             \<and> \<not> is_finite t"
  using assms
  by (simp add: calculateAndSetWidth_def and_then_def publish_def Let_def scrollDuration_def
      js_mul_not_finite js_div_zero_not_finite)

text \<open>The scenario of the three text items with \<^verbatim>\<open>baseWidth={0}\<close>.\<close>

theorem zero_baseWidth_publishes_non_finite_duration_witness:
  "children abc_layout \<noteq> []
   \<and> halfTotalWidth parseFloat_decimal zero_base_props abc_layout = Inr (Fin 1200)
   \<and> js_gt (Fin 1200) (Fin 0)
   \<and> baseWidth zero_base_props = Fin 0
   \<and> (\<exists>t. calculateAndSetWidth parseFloat_decimal zero_base_props abc_layout =
             Inr [SetProperty ''--total-width'' (Px (Fin 1200)),
                  SetProperty ''--scroll-duration'' (Seconds t),
                  RequestAnimationFrame_classList_add ''infinite-slider-ready'']
           \<and> \<not> is_finite t)"
proof -
  have h1: "children abc_layout \<noteq> []" by code_simp
  have h2: "halfTotalWidth parseFloat_decimal zero_base_props abc_layout = Inr (Fin 1200)"
    by code_simp
  have h3: "js_gt (Fin 1200) (Fin 0)" by code_simp
  have h4: "baseWidth zero_base_props = Fin 0" by code_simp
  have h5: "Math_round (Fin 1200) = Fin 1200" by code_simp
  from zero_baseWidth_publishes_non_finite_duration[OF h1 h2 h3 h4] h1 h2 h3 h4 h5
  show ?thesis by simp
qed

end
